theory Spec2Isabelle
  imports Main "HOL-Library.Word"
begin

unbundle bit_operations_syntax

section \<open>midi-piano: the App component of src/App.tsx\<close>

text \<open>
  The repository is one React component. Its state is three \<open>useState\<close> cells
  (\<open>midiStatus\<close>, \<open>pressedNotes\<close>, \<open>inputNames\<close>); every callback of the
  component is modelled as a function from the state before to the state after.
\<close>

subsection \<open>The note name formatter (lines 4-10)\<close>

definition NOTE_NAMES :: "string list" where
  "NOTE_NAMES = [''C'', ''C#'', ''D'', ''D#'', ''E'', ''F'', ''F#'', ''G'', ''G#'', ''A'', ''A#'', ''B'']"

text \<open>
  JavaScript's \<open>%\<close> truncates towards zero (the result has the sign of the dividend),
  and an array read outside its bounds is \<open>undefined\<close>, which a template literal
  prints as the text "undefined". Note numbers are modelled as integers: the handler
  only ever stores bytes of a \<open>Uint8Array\<close>.
\<close>

definition js_rem :: "int \<Rightarrow> int \<Rightarrow> int" where
  "js_rem a b = sgn a * (\<bar>a\<bar> mod \<bar>b\<bar>)"

definition array_get :: "'a list \<Rightarrow> int \<Rightarrow> 'a option" where
  "array_get xs i = (if 0 \<le> i \<and> i < int (length xs) then Some (xs ! nat i) else None)"

definition digit_char :: "nat \<Rightarrow> char" where
  "digit_char d = ''0123456789'' ! d"

function nat_to_string :: "nat \<Rightarrow> string" where
  "nat_to_string n =
     (if n < 10 then [digit_char n] else nat_to_string (n div 10) @ [digit_char (n mod 10)])"
  by pat_completeness auto
termination
  by (relation "measure id") auto

declare nat_to_string.simps [simp del]

definition number_to_string :: "int \<Rightarrow> string" where
  "number_to_string i = (if i < 0 then CHR ''-'' # nat_to_string (nat (- i)) else nat_to_string (nat i))"

definition template_part :: "string option \<Rightarrow> string" where
  "template_part s = (case s of None \<Rightarrow> ''undefined'' | Some t \<Rightarrow> t)"

definition midiNoteToName :: "int \<Rightarrow> string" where
  "midiNoteToName note =
     (let name = array_get NOTE_NAMES (js_rem note 12);
          octave = note div 12 - 1
      in template_part name @ number_to_string octave)"

subsection \<open>The pressed-notes map and the message handler (lines 16-38)\<close>

type_synonym byte = "8 word"

text \<open>
  \<open>pressedNotes\<close> is a JavaScript \<open>Map\<close>: its entries are kept in insertion order
  and its keys are unique. It is modelled as the list of its entries. \<open>Map.set\<close>
  overwrites the value of a key that is present, in place, and appends a new key;
  \<open>Map.delete\<close> removes the key; \<open>Map.get\<close> is \<open>map_of\<close>.
\<close>

type_synonym note_map = "(byte \<times> byte) list"

fun map_set :: "'k \<Rightarrow> 'v \<Rightarrow> ('k \<times> 'v) list \<Rightarrow> ('k \<times> 'v) list" where
  "map_set k v [] = [(k, v)]"
| "map_set k v (e # es) = (if fst e = k then (k, v) # es else e # map_set k v es)"

definition map_delete :: "'k \<Rightarrow> ('k \<times> 'v) list \<Rightarrow> ('k \<times> 'v) list" where
  "map_delete k es = filter (\<lambda>e. fst e \<noteq> k) es"

text \<open>
  \<open>event.data\<close> is a \<open>Uint8Array\<close> or null. The two \<open>setPressedNotes\<close> calls
  pass updaters of the previous map, so the handler is the function from the previous
  map to the next one.
\<close>

definition handleMIDIMessage :: "byte list option \<Rightarrow> note_map \<Rightarrow> note_map" where
  "handleMIDIMessage data prev =
     (case data of
        None \<Rightarrow> prev
      | Some d \<Rightarrow>
          if length d < 3 then prev
          else
            let status = d ! 0;
                note = d ! 1;
                velocity = d ! 2;
                isNoteOn = (status = 0x90 \<or> status = 0x99);
                isNoteOff = (status = 0x80 \<or> status = 0x89);
                isNoteOnWithZeroVel = (status AND 0xf0 = 0x90 \<and> velocity = 0)
            in if isNoteOn \<and> 0 < velocity then map_set note velocity prev
               else if isNoteOff \<or> isNoteOnWithZeroVel then map_delete note prev
               else prev)"

text \<open>The handler run over a sequence of incoming messages, oldest first.\<close>

definition handle_all :: "byte list option list \<Rightarrow> note_map \<Rightarrow> note_map" where
  "handle_all msgs m = foldl (\<lambda>acc data. handleMIDIMessage data acc) m msgs"

subsection \<open>The rendered list (line 76)\<close>

text \<open>
  \<open>Array.prototype.sort\<close> with a comparator is a stable sort: \<open>a\<close> goes before
  \<open>b\<close> when the comparator is negative, and equal elements keep their order.
\<close>

fun sort_insert :: "('a \<Rightarrow> 'a \<Rightarrow> int) \<Rightarrow> 'a \<Rightarrow> 'a list \<Rightarrow> 'a list" where
  "sort_insert cmp x [] = [x]"
| "sort_insert cmp x (y # ys) = (if cmp x y \<le> 0 then x # y # ys else y # sort_insert cmp x ys)"

definition array_sort :: "('a \<Rightarrow> 'a \<Rightarrow> int) \<Rightarrow> 'a list \<Rightarrow> 'a list" where
  "array_sort cmp xs = foldr (sort_insert cmp) xs []"

definition pressedList :: "note_map \<Rightarrow> (byte \<times> byte) list" where
  "pressedList pressedNotes = array_sort (\<lambda>a b. uint (fst a) - uint (fst b)) pressedNotes"

text \<open>
  An incoming MIDI message: its third byte, the velocity, is a 7-bit data byte, as the
  platform delivers it.
\<close>

definition velocity_at_most_127 :: "byte list option \<Rightarrow> bool" where
  "velocity_at_most_127 data = (case data of None \<Rightarrow> True | Some d \<Rightarrow> length d < 3 \<or> d ! 2 \<le> 127)"

subsection \<open>The view state (lines 12-17)\<close>

datatype MIDIStatus = Idle | Requesting | Ready | Unsupported | Denied | Error

record app_state =
  midiStatus :: MIDIStatus
  pressedNotes :: note_map
  inputNames :: "string list"

definition initial_state :: app_state where
  "initial_state = \<lparr>midiStatus = Idle, pressedNotes = [], inputNames = []\<rparr>"

text \<open>The connect button is rendered by \<open>midiStatus === 'idle' && ...\<close> (lines 90-94).\<close>

definition connect_button_rendered :: "app_state \<Rightarrow> bool" where
  "connect_button_rendered s = (midiStatus s = Idle)"

subsection \<open>The platform: navigator, input ports and their handlers\<close>

text \<open>
  \<open>navigator\<close> may be undefined, and when it is defined \<open>requestMIDIAccess\<close> is
  present or not.
\<close>

datatype navigator = NavigatorUndefined | Navigator bool

fun has_requestMIDIAccess :: "navigator \<Rightarrow> bool" where
  "has_requestMIDIAccess NavigatorUndefined = False"
| "has_requestMIDIAccess (Navigator api) = api"

text \<open>
  Function references are compared by identity (\<open>!==\<close> at line 63).
  \<open>handleMIDIMessage\<close> is created once (\<open>useCallback\<close> with no dependencies), so
  it is one reference. An input port is an object of the platform: \<open>port_ref\<close> is its
  identity, and its \<open>onmidimessage\<close> property lives in a store from identities to
  handlers, which the component writes through the property's setter.
\<close>

datatype handler = HandleMIDIMessage | OtherHandler nat

record midi_port =
  port_ref :: nat
  port_name :: "string option"
  port_id :: "string option"

type_synonym handler_store = "nat \<Rightarrow> handler option"

text \<open>\<open>input.name ?? input.id ?? 'MIDI Input'\<close>: the first operand that is not null.\<close>

definition input_label :: "midi_port \<Rightarrow> string" where
  "input_label input =
     (case port_name input of
        Some n \<Rightarrow> n
      | None \<Rightarrow> (case port_id input of Some i \<Rightarrow> i | None \<Rightarrow> ''MIDI Input''))"

text \<open>
  What one pass of \<open>access.inputs.forEach\<close> builds: the names pushed, the handler
  store, and the ports whose \<open>onmidimessage\<close> setter was called, in order.
\<close>

record enumeration =
  names :: "string list"
  store :: handler_store
  assigned :: "nat list"

definition forEach :: "('a \<Rightarrow> 's \<Rightarrow> 's) \<Rightarrow> 'a list \<Rightarrow> 's \<Rightarrow> 's" where
  "forEach f xs acc = foldl (\<lambda>a x. f x a) acc xs"

text \<open>The loop body of lines 54-57, run when access is granted.\<close>

definition grant_visit :: "midi_port \<Rightarrow> enumeration \<Rightarrow> enumeration" where
  "grant_visit input acc =
     acc\<lparr>names := names acc @ [input_label input],
         store := (store acc)(port_ref input := Some HandleMIDIMessage),
         assigned := assigned acc @ [port_ref input]\<rparr>"

text \<open>The loop body of lines 61-66, run on a device-list change.\<close>

definition statechange_visit :: "midi_port \<Rightarrow> enumeration \<Rightarrow> enumeration" where
  "statechange_visit input acc =
     (let acc' = acc\<lparr>names := names acc @ [input_label input]\<rparr>
      in if store acc' (port_ref input) \<noteq> Some HandleMIDIMessage
         then acc'\<lparr>store := (store acc')(port_ref input := Some HandleMIDIMessage),
                   assigned := assigned acc' @ [port_ref input]\<rparr>
         else acc')"

subsection \<open>The callbacks of the component (lines 40-74)\<close>

text \<open>
  The world is the view state together with what the platform holds: the current input
  ports, their handlers, the access requests that have not settled yet, and whether
  \<open>access.onstatechange\<close> has been set.
\<close>

record world =
  view :: app_state
  inputs :: "midi_port list"
  handlers :: handler_store
  pending :: nat
  subscribed :: bool

definition initial_world :: "midi_port list \<Rightarrow> world" where
  "initial_world ports =
     \<lparr>view = initial_state, inputs = ports, handlers = (\<lambda>_. None), pending = 0, subscribed = False\<rparr>"

text \<open>The effect of lines 40-44.\<close>

definition mount_effect :: "navigator \<Rightarrow> app_state \<Rightarrow> app_state" where
  "mount_effect nav s =
     (if nav \<noteq> NavigatorUndefined \<and> \<not> has_requestMIDIAccess nav
      then s\<lparr>midiStatus := Unsupported\<rparr> else s)"

text \<open>
  \<open>connectMIDI\<close> up to the call of \<open>requestMIDIAccess\<close> (lines 46-50). The second
  component tells whether a request was made. Reading a property of an undefined
  \<open>navigator\<close> throws, which leaves the state as it was.
\<close>

definition connectMIDI :: "navigator \<Rightarrow> app_state \<Rightarrow> app_state \<times> bool" where
  "connectMIDI nav s =
     (if nav = NavigatorUndefined then (s, False)
      else if \<not> has_requestMIDIAccess nav then (s, False)
      else (s\<lparr>midiStatus := Requesting\<rparr>, True))"

text \<open>The \<open>then\<close> callback (lines 51-69); the second component is the setter calls.\<close>

definition on_access_granted :: "world \<Rightarrow> world \<times> nat list" where
  "on_access_granted w =
     (let r = forEach grant_visit (inputs w) \<lparr>names = [], store = handlers w, assigned = []\<rparr>
      in (w\<lparr>view := (view w)\<lparr>midiStatus := Ready, inputNames := names r\<rparr>,
            handlers := store r,
            subscribed := True\<rparr>,
          assigned r))"

text \<open>The \<open>onstatechange\<close> callback (lines 59-68).\<close>

definition on_statechange :: "world \<Rightarrow> world \<times> nat list" where
  "on_statechange w =
     (let r = forEach statechange_visit (inputs w) \<lparr>names = [], store = handlers w, assigned = []\<rparr>
      in (w\<lparr>view := (view w)\<lparr>inputNames := names r\<rparr>, handlers := store r\<rparr>, assigned r))"

text \<open>The \<open>catch\<close> callback (lines 70-73); \<open>console.error\<close> changes no state.\<close>

definition on_access_rejected :: "string \<Rightarrow> app_state \<Rightarrow> app_state" where
  "on_access_rejected err_name s =
     s\<lparr>midiStatus := (if err_name = ''SecurityError'' then Denied else Error)\<rparr>"

text \<open>
  What can happen to the mounted component. A promise callback runs only for a request
  that is pending, the \<open>onstatechange\<close> callback only once it has been set, and a
  message reaches \<open>handleMIDIMessage\<close> only through a port that carries it. The
  component never takes the handler off a port, so a port that has left the device list
  still delivers to it.
\<close>

datatype event =
    Mount
  | Connect
  | Granted
  | Rejected string
  | StateChange "midi_port list"
  | Message nat "byte list option"

fun step :: "navigator \<Rightarrow> world \<Rightarrow> event \<Rightarrow> world" where
  "step nav w Mount = w\<lparr>view := mount_effect nav (view w)\<rparr>"
| "step nav w Connect =
     (let (s, requested) = connectMIDI nav (view w)
      in w\<lparr>view := s, pending := (if requested then pending w + 1 else pending w)\<rparr>)"
| "step nav w Granted =
     (if pending w = 0 then w else fst (on_access_granted (w\<lparr>pending := pending w - 1\<rparr>)))"
| "step nav w (Rejected err_name) =
     (if pending w = 0 then w
      else w\<lparr>pending := pending w - 1, view := on_access_rejected err_name (view w)\<rparr>)"
| "step nav w (StateChange ports) =
     (let w' = w\<lparr>inputs := ports\<rparr> in if subscribed w' then fst (on_statechange w') else w')"
| "step nav w (Message r data) =
     (if handlers w r = Some HandleMIDIMessage
      then w\<lparr>view := (view w)\<lparr>pressedNotes := handleMIDIMessage data (pressedNotes (view w))\<rparr>\<rparr>
      else w)"

definition run :: "navigator \<Rightarrow> event list \<Rightarrow> world \<Rightarrow> world" where
  "run nav es w = foldl (step nav) w es"

section \<open>Properties\<close>

subsection \<open>The entries of the map\<close>

lemma map_of_map_set: "map_of (map_set k v es) = (map_of es)(k \<mapsto> v)"
  by (induction es) (auto simp: fun_eq_iff)

lemma map_of_map_delete: "map_of (map_delete k es) = (map_of es)(k := None)"
  by (induction es) (auto simp: map_delete_def fun_eq_iff)

lemma set_map_set_mem: "(k, v) \<in> set (map_set k v es)"
  by (induction es) auto

lemma keys_map_set: "fst ` set (map_set k v es) = insert k (fst ` set es)"
  by (induction es) auto

lemma keys_map_delete: "fst ` set (map_delete k es) = fst ` set es - {k}"
  by (auto simp: map_delete_def)

lemma map_delete_absent: "k \<notin> fst ` set es \<Longrightarrow> map_delete k es = es"
  by (induction es) (auto simp: map_delete_def)

lemma set_map_set_subset: "set (map_set k v es) \<subseteq> insert (k, v) (set es)"
  by (induction es) auto

lemma set_map_delete_subset: "set (map_delete k es) \<subseteq> set es"
  by (auto simp: map_delete_def)

lemma filter_others_map_set:
  "filter (\<lambda>e. fst e \<noteq> k) (map_set k v es) = filter (\<lambda>e. fst e \<noteq> k) es"
  by (induction es) auto

lemma filter_others_map_delete:
  "filter (\<lambda>e. fst e \<noteq> k) (map_delete k es) = filter (\<lambda>e. fst e \<noteq> k) es"
  by (simp add: map_delete_def)

text \<open>The keys stay unique, as they are in a \<open>Map\<close>.\<close>

lemma distinct_map_set: "distinct (map fst es) \<Longrightarrow> distinct (map fst (map_set k v es))"
  by (induction es) (auto simp: keys_map_set)

lemma distinct_map_delete: "distinct (map fst es) \<Longrightarrow> distinct (map fst (map_delete k es))"
  by (simp add: map_delete_def distinct_map_filter)

lemma distinct_handle:
  "distinct (map fst m) \<Longrightarrow> distinct (map fst (handleMIDIMessage data m))"
  by (auto simp: handleMIDIMessage_def Let_def distinct_map_set distinct_map_delete
      split: option.splits)

lemma distinct_handle_all:
  "distinct (map fst m) \<Longrightarrow> distinct (map fst (handle_all msgs m))"
  unfolding handle_all_def
  by (induction msgs arbitrary: m) (auto simp: distinct_handle)

text \<open>The three outcomes of one call of the handler.\<close>

lemma handle_cases:
  "handleMIDIMessage data prev = prev
   \<or> (\<exists>d. data = Some d \<and> 3 \<le> length d \<and> 0 < d ! 2
          \<and> handleMIDIMessage data prev = map_set (d ! 1) (d ! 2) prev)
   \<or> (\<exists>d. data = Some d \<and> 3 \<le> length d
          \<and> handleMIDIMessage data prev = map_delete (d ! 1) prev)"
  by (auto simp: handleMIDIMessage_def Let_def split: option.splits)

subsection \<open>The message handler\<close>

text \<open>
  C1: a message of at least 3 bytes whose status byte is 0x90 or 0x99 and whose velocity
  byte is in [1,127] puts the pair (note, velocity) into the pressed notes: the pair is
  an entry, looking the note up gives the velocity, and the keys are the old keys and
  the note.
\<close>

theorem note_on_places_pair:
  assumes "3 \<le> length d" and "d ! 0 = 0x90 \<or> d ! 0 = 0x99" and "1 \<le> d ! 2" and "d ! 2 \<le> 127"
  shows "(d ! 1, d ! 2) \<in> set (handleMIDIMessage (Some d) prev)
       \<and> map_of (handleMIDIMessage (Some d) prev) (d ! 1) = Some (d ! 2)
       \<and> fst ` set (handleMIDIMessage (Some d) prev) = insert (d ! 1) (fst ` set prev)"
proof -
  from assms(3) have pos: "0 < d ! 2"
    by (simp add: word_less_nat_alt word_le_nat_alt)
  with assms(1,2) have "handleMIDIMessage (Some d) prev = map_set (d ! 1) (d ! 2) prev"
    by (auto simp: handleMIDIMessage_def Let_def)
  then show ?thesis
    by (simp add: set_map_set_mem map_of_map_set keys_map_set)
qed

theorem note_on_places_pair_witness:
  "handleMIDIMessage (Some [0x90, 60, 100]) [(60, 7), (62, 9)] = [(60, 100), (62, 9)]
   \<and> map_of (handleMIDIMessage (Some [0x90, 60, 100]) [(60, 7), (62, 9)]) 60 = Some 100"
  using note_on_places_pair [of "[0x90, 60, 100]" "[(60, 7), (62, 9)]"]
  by (simp add: handleMIDIMessage_def)

text \<open>
  C2: a message of at least 3 bytes that is an explicit note-off on channel 0 or 9
  (status 0x80 or 0x89), or that has a note-on status (high nibble 9) and velocity 0,
  removes its note from the pressed notes and nothing else: the map afterwards is the
  map before without that note, its entries are the other entries of before in their
  order, and its keys are the keys of before without the note.
\<close>

theorem release_removes_note:
  assumes "3 \<le> length d"
    and "d ! 0 = 0x80 \<or> d ! 0 = 0x89 \<or> (d ! 0 AND 0xf0 = 0x90 \<and> d ! 2 = 0)"
  shows "d ! 1 \<notin> fst ` set (handleMIDIMessage (Some d) prev)
       \<and> map_of (handleMIDIMessage (Some d) prev) (d ! 1) = None
       \<and> map_of (handleMIDIMessage (Some d) prev) = (map_of prev)(d ! 1 := None)
       \<and> handleMIDIMessage (Some d) prev = filter (\<lambda>e. fst e \<noteq> d ! 1) prev
       \<and> fst ` set (handleMIDIMessage (Some d) prev) = fst ` set prev - {d ! 1}"
proof -
  from assms have "handleMIDIMessage (Some d) prev = map_delete (d ! 1) prev"
    by (auto simp: handleMIDIMessage_def Let_def)
  moreover have "map_delete (d ! 1) prev = filter (\<lambda>e. fst e \<noteq> d ! 1) prev"
    by (simp add: map_delete_def)
  ultimately show ?thesis
    using keys_map_delete [of "d ! 1" prev] map_of_map_delete [of "d ! 1" prev]
    by simp
qed

theorem release_removes_note_witness:
  "map_of [(60, 100), (64, 90 :: byte)] (60 :: byte) = Some 100
   \<and> map_of (handleMIDIMessage (Some [0x80, 60, 64]) [(60, 100), (64, 90)]) 60 = None
   \<and> map_of (handleMIDIMessage (Some [0x80, 60, 64]) [(60, 100), (64, 90)]) 64 = Some 90
   \<and> handleMIDIMessage (Some [0x80, 60, 64]) [(60, 100), (64, 90)] = [(64, 90)]
   \<and> handleMIDIMessage (Some [0x99, 60, 0]) [(60, 100), (64, 90)] = [(64, 90)]
   \<and> handleMIDIMessage (Some [0x93, 64, 0]) [(60, 100), (64, 90)] = [(60, 100)]"
  using release_removes_note [of "[0x80, 60, 64]" "[(60, 100), (64, 90)]"]
    release_removes_note [of "[0x99, 60, 0]" "[(60, 100), (64, 90)]"]
    release_removes_note [of "[0x93, 64, 0]" "[(60, 100), (64, 90)]"]
  by simp

text \<open>
  C3, as stated, fails: status 0x91 is none of 0x90, 0x99, 0x80, 0x89, yet with velocity 0
  the mask of line 27 takes it for a note-on with zero velocity and the note is removed.
\<close>

theorem other_channel_zero_velocity_counterexample:
  "(0x91 :: byte) \<noteq> 0x90 \<and> (0x91 :: byte) \<noteq> 0x99 \<and> (0x91 :: byte) \<noteq> 0x80 \<and> (0x91 :: byte) \<noteq> 0x89
   \<and> handleMIDIMessage (Some [0x91, 60, 0]) [(60, 100)] = []
   \<and> handleMIDIMessage (Some [0x91, 60, 0]) [(60, 100)] \<noteq> [(60, 100)]"
  by (simp add: handleMIDIMessage_def map_delete_def)

text \<open>
  C3, amended: a message that has no data, or is shorter than 3 bytes, or whose status
  byte is none of 0x90, 0x99, 0x80, 0x89 and which is not a note-on status of another
  channel (high nibble 9) with velocity 0, leaves the pressed notes exactly as they were.
\<close>

theorem ignored_message_unchanged:
  assumes "length d < 3 \<or>
           (d ! 0 \<noteq> 0x90 \<and> d ! 0 \<noteq> 0x99 \<and> d ! 0 \<noteq> 0x80 \<and> d ! 0 \<noteq> 0x89
            \<and> \<not> (d ! 0 AND 0xf0 = 0x90 \<and> d ! 2 = 0))"
  shows "handleMIDIMessage (Some d) prev = prev \<and> handleMIDIMessage None prev = prev"
  using assms by (auto simp: handleMIDIMessage_def Let_def)

theorem ignored_message_unchanged_witness:
  "handleMIDIMessage (Some [0x90, 60]) [(60, 100)] = [(60, 100)]
   \<and> handleMIDIMessage (Some [0xB0, 60, 0]) [(60, 100)] = [(60, 100)]
   \<and> handleMIDIMessage (Some [0x91, 60, 5]) [(60, 100)] = [(60, 100)]"
  using ignored_message_unchanged [of "[0x90, 60]" "[(60, 100)]"]
    ignored_message_unchanged [of "[0xB0, 60, 0]" "[(60, 100)]"]
    ignored_message_unchanged [of "[0x91, 60, 5]" "[(60, 100)]"]
  by simp

text \<open>
  C10: one message changes at most the entry of the note in its byte 1. A message
  shorter than 3 bytes changes nothing; a longer one leaves the lookup of every other
  note, and the other entries in their order, as they were; a release of a note that is
  not pressed leaves the whole map as it was.
\<close>

theorem handler_frame:
  "(length d < 3 \<longrightarrow> handleMIDIMessage (Some d) prev = prev)
   \<and> (3 \<le> length d \<longrightarrow>
        (\<forall>k. k \<noteq> d ! 1 \<longrightarrow> map_of (handleMIDIMessage (Some d) prev) k = map_of prev k)
        \<and> filter (\<lambda>e. fst e \<noteq> d ! 1) (handleMIDIMessage (Some d) prev)
            = filter (\<lambda>e. fst e \<noteq> d ! 1) prev)
   \<and> (3 \<le> length d \<and> (d ! 0 = 0x80 \<or> d ! 0 = 0x89 \<or> (d ! 0 AND 0xf0 = 0x90 \<and> d ! 2 = 0))
        \<and> d ! 1 \<notin> fst ` set prev \<longrightarrow> handleMIDIMessage (Some d) prev = prev)
   \<and> handleMIDIMessage None prev = prev"
proof -
  have short: "length d < 3 \<longrightarrow> handleMIDIMessage (Some d) prev = prev"
    by (simp add: handleMIDIMessage_def)
  have others: "3 \<le> length d \<longrightarrow>
        (\<forall>k. k \<noteq> d ! 1 \<longrightarrow> map_of (handleMIDIMessage (Some d) prev) k = map_of prev k)
        \<and> filter (\<lambda>e. fst e \<noteq> d ! 1) (handleMIDIMessage (Some d) prev)
            = filter (\<lambda>e. fst e \<noteq> d ! 1) prev"
    using handle_cases [of "Some d" prev]
    by (auto simp: map_of_map_set map_of_map_delete filter_others_map_set
        filter_others_map_delete)
  have absent: "3 \<le> length d \<and> (d ! 0 = 0x80 \<or> d ! 0 = 0x89 \<or> (d ! 0 AND 0xf0 = 0x90 \<and> d ! 2 = 0))
        \<and> d ! 1 \<notin> fst ` set prev \<longrightarrow> handleMIDIMessage (Some d) prev = prev"
  proof
    assume a: "3 \<le> length d \<and> (d ! 0 = 0x80 \<or> d ! 0 = 0x89 \<or> (d ! 0 AND 0xf0 = 0x90 \<and> d ! 2 = 0))
        \<and> d ! 1 \<notin> fst ` set prev"
    then have "handleMIDIMessage (Some d) prev = map_delete (d ! 1) prev"
      by (auto simp: handleMIDIMessage_def Let_def)
    with a show "handleMIDIMessage (Some d) prev = prev"
      by (simp add: map_delete_absent)
  qed
  have none: "handleMIDIMessage None prev = prev"
    by (simp add: handleMIDIMessage_def)
  from short others absent none show ?thesis by blast
qed

theorem handler_frame_witness:
  "map_of (handleMIDIMessage (Some [0x90, 60, 100]) [(60, 7), (62, 9)]) 62 = Some 9
   \<and> map_of (handleMIDIMessage (Some [0x80, 60, 0]) [(60, 7), (62, 9)]) 62 = Some 9
   \<and> handleMIDIMessage (Some [0x80, 61, 0]) [(60, 7), (62, 9)] = [(60, 7), (62, 9)]
   \<and> handleMIDIMessage (Some [0x90, 61]) [(60, 7), (62, 9)] = [(60, 7), (62, 9)]"
  using handler_frame [of "[0x90, 60, 100]" "[(60, 7), (62, 9)]"]
    handler_frame [of "[0x80, 60, 0]" "[(60, 7), (62, 9)]"]
    handler_frame [of "[0x80, 61, 0]" "[(60, 7), (62, 9)]"]
    handler_frame [of "[0x90, 61]" "[(60, 7), (62, 9)]"]
  by simp

subsection \<open>The stored velocities\<close>

lemma handle_nonzero:
  assumes "\<forall>e \<in> set m. snd e \<noteq> 0"
  shows "\<forall>e \<in> set (handleMIDIMessage data m). snd e \<noteq> 0"
proof -
  from handle_cases [of data m]
  consider "handleMIDIMessage data m = m"
    | d where "0 < d ! 2" and "handleMIDIMessage data m = map_set (d ! 1) (d ! 2) m"
    | d where "handleMIDIMessage data m = map_delete (d ! 1) m"
    by auto
  then show ?thesis
  proof cases
    case 1
    with assms show ?thesis by simp
  next
    case 2
    from 2(1) have "d ! 2 \<noteq> 0" by auto
    with 2(2) assms set_map_set_subset [of "d ! 1" "d ! 2" m] show ?thesis by auto
  next
    case 3
    with assms set_map_delete_subset [of "d ! 1" m] show ?thesis by auto
  qed
qed

lemma handle_le_127:
  assumes "\<forall>e \<in> set m. snd e \<le> 127" and "velocity_at_most_127 data"
  shows "\<forall>e \<in> set (handleMIDIMessage data m). snd e \<le> 127"
proof (cases data)
  case None
  with assms show ?thesis by (simp add: handleMIDIMessage_def)
next
  case (Some d)
  show ?thesis
  proof (cases "length d < 3")
    case True
    with Some assms show ?thesis by (simp add: handleMIDIMessage_def)
  next
    case False
    with Some assms(2) have v: "d ! 2 \<le> 127" by (simp add: velocity_at_most_127_def)
    from handle_cases [of data m] Some
    consider "handleMIDIMessage data m = m"
      | "handleMIDIMessage data m = map_set (d ! 1) (d ! 2) m"
      | "handleMIDIMessage data m = map_delete (d ! 1) m"
      by auto
    then show ?thesis
    proof cases
      case 1
      with assms show ?thesis by simp
    next
      case 2
      with assms v set_map_set_subset [of "d ! 1" "d ! 2" m] show ?thesis by auto
    next
      case 3
      with assms set_map_delete_subset [of "d ! 1" m] show ?thesis by auto
    qed
  qed
qed

lemma handle_all_nonzero:
  "\<forall>e \<in> set m. snd e \<noteq> 0 \<Longrightarrow> \<forall>e \<in> set (handle_all msgs m). snd e \<noteq> 0"
  unfolding handle_all_def
proof (induction msgs arbitrary: m)
  case Nil
  then show ?case by simp
next
  case (Cons a msgs)
  have "\<forall>e \<in> set (handleMIDIMessage a m). snd e \<noteq> 0"
    using Cons.prems by (rule handle_nonzero)
  then have "\<forall>e \<in> set (foldl (\<lambda>acc data. handleMIDIMessage data acc)
      (handleMIDIMessage a m) msgs). snd e \<noteq> 0"
    by (rule Cons.IH)
  then show ?case by simp
qed

lemma handle_all_le_127:
  "\<forall>e \<in> set m. snd e \<le> 127 \<Longrightarrow> \<forall>data \<in> set msgs. velocity_at_most_127 data
   \<Longrightarrow> \<forall>e \<in> set (handle_all msgs m). snd e \<le> 127"
  unfolding handle_all_def
proof (induction msgs arbitrary: m)
  case Nil
  then show ?case by simp
next
  case (Cons a msgs)
  from Cons.prems(2) have a: "velocity_at_most_127 a"
    and rest: "\<forall>data \<in> set msgs. velocity_at_most_127 data"
    by simp_all
  have "\<forall>e \<in> set (handleMIDIMessage a m). snd e \<le> 127"
    using Cons.prems(1) a by (rule handle_le_127)
  then have "\<forall>e \<in> set (foldl (\<lambda>acc data. handleMIDIMessage data acc)
      (handleMIDIMessage a m) msgs). snd e \<le> 127"
    using rest by (rule Cons.IH)
  then show ?case by simp
qed

text \<open>
  C9: starting from the empty map, after any sequence of incoming MIDI messages (the
  velocity byte of a MIDI message is a 7-bit data byte, at most 127) every stored
  velocity is in [1,127]; a zero velocity is never stored, whatever the bytes are.
\<close>

theorem stored_velocity_bounds:
  "(\<forall>e \<in> set (handle_all msgs []). snd e \<noteq> 0)
   \<and> ((\<forall>data \<in> set msgs. velocity_at_most_127 data)
        \<longrightarrow> (\<forall>e \<in> set (handle_all msgs []). 1 \<le> snd e \<and> snd e \<le> 127))"
proof -
  have nz: "\<forall>e \<in> set (handle_all msgs []). snd e \<noteq> 0"
    by (rule handle_all_nonzero) simp
  have "\<forall>e \<in> set (handle_all msgs []). snd e \<le> 127"
    if "\<forall>data \<in> set msgs. velocity_at_most_127 data"
    using that by (intro handle_all_le_127) simp_all
  moreover have "1 \<le> (w :: byte)" if "w \<noteq> 0" for w
  proof -
    have "0 \<le> uint w" by simp
    moreover from that have "uint w \<noteq> 0" by (simp add: uint_0_iff)
    ultimately have "1 \<le> uint w" by linarith
    then show ?thesis by (simp add: word_le_def)
  qed
  ultimately show ?thesis using nz by blast
qed

theorem stored_velocity_bounds_witness:
  "handle_all [Some [0x90, 60, 100], Some [0x90, 62, 0], Some [0x99, 64, 127], Some [0x90, 60, 1]] []
     = [(60, 1), (64, 127)]
   \<and> velocity_at_most_127 (Some [0x90, 60, 100]) \<and> velocity_at_most_127 (Some [0x99, 64, 127])
   \<and> list_all (\<lambda>e. 1 \<le> snd e \<and> snd e \<le> 127)
       (handle_all [Some [0x90, 60, 100], Some [0x90, 62, 0], Some [0x99, 64, 127], Some [0x90, 60, 1]] [])"
  using stored_velocity_bounds
    [of "[Some [0x90, 60, 100], Some [0x90, 62, 0], Some [0x99, 64, 127], Some [0x90, 60, 1]]"]
  by (simp add: handle_all_def handleMIDIMessage_def velocity_at_most_127_def map_delete_def)

subsection \<open>The note name formatter\<close>

lemma js_rem_nonneg: "0 \<le> a \<Longrightarrow> js_rem a 12 = a mod 12"
  by (cases "a = 0") (simp_all add: js_rem_def)

lemma NOTE_NAMES_length: "length NOTE_NAMES = 12"
  by (simp add: NOTE_NAMES_def)

lemma midiNoteToName_in_range:
  assumes "0 \<le> note"
  shows "midiNoteToName note = NOTE_NAMES ! nat (note mod 12) @ number_to_string (note div 12 - 1)"
proof -
  have "0 \<le> note mod 12" and "note mod 12 < 12" by simp_all
  then have "array_get NOTE_NAMES (note mod 12) = Some (NOTE_NAMES ! nat (note mod 12))"
    by (simp add: array_get_def NOTE_NAMES_length)
  with assms show ?thesis
    by (simp add: midiNoteToName_def js_rem_nonneg template_part_def)
qed

lemma number_to_string_small:
  "number_to_string 4 = ''4''" "number_to_string (- 1) = ''-1''" "number_to_string 9 = ''9''"
  by (simp_all add: number_to_string_def nat_to_string.simps digit_char_def)

text \<open>
  C4: for every note number in [0,127], \<open>midiNoteToName\<close> is the entry of
  \<open>NOTE_NAMES\<close> at \<open>note mod 12\<close> followed by the decimal text of
  \<open>floor(note/12) - 1\<close>; note 60 is "C4", note 69 is "A4" and note 0 is "C-1".
\<close>

theorem midiNoteToName_formula:
  "(0 \<le> note \<and> note \<le> 127 \<longrightarrow>
      midiNoteToName note = NOTE_NAMES ! nat (note mod 12) @ number_to_string (note div 12 - 1))
   \<and> midiNoteToName 60 = ''C4'' \<and> midiNoteToName 69 = ''A4'' \<and> midiNoteToName 0 = ''C-1''"
proof -
  have "midiNoteToName 60 = ''C4''" "midiNoteToName 69 = ''A4''" "midiNoteToName 0 = ''C-1''"
    using midiNoteToName_in_range [of 60] midiNoteToName_in_range [of 69]
      midiNoteToName_in_range [of 0]
    by (simp_all add: NOTE_NAMES_def number_to_string_small)
  then show ?thesis by (simp add: midiNoteToName_in_range)
qed

theorem midiNoteToName_formula_witness:
  "midiNoteToName 61 = ''C#4'' \<and> midiNoteToName 127 = ''G9''"
  using midiNoteToName_formula [of 61] midiNoteToName_formula [of 127]
  by (simp add: NOTE_NAMES_def number_to_string_small)

subsection \<open>The rendered list\<close>

lemma sort_insert_insort: "sort_insert (\<lambda>a b. f a - f b) x ys = insort_key f x ys"
  by (induction ys) auto

lemma array_sort_sort_key: "array_sort (\<lambda>a b. f a - f b) xs = sort_key f xs"
  by (induction xs) (simp_all add: array_sort_def sort_insert_insort)

lemma pressedList_sort_key: "pressedList m = sort_key (\<lambda>e. uint (fst e)) m"
  by (simp add: pressedList_def array_sort_sort_key)

lemma sorted_insort_key_strict:
  "sorted_wrt (<) (map f ys) \<Longrightarrow> f x \<notin> f ` set ys
   \<Longrightarrow> sorted_wrt (<) (map f (insort_key f x ys))"
  by (induction ys) (auto simp: set_insort_key)

lemma sort_key_strict: "distinct (map f xs) \<Longrightarrow> sorted_wrt (<) (map f (sort_key f xs))"
  by (induction xs) (auto simp: sorted_insort_key_strict)

lemma uint_fst_distinct:
  "distinct (map fst (m :: note_map)) \<Longrightarrow> distinct (map (\<lambda>e. uint (fst e)) m)"
proof -
  assume "distinct (map fst m)"
  moreover have "inj_on uint (set (map fst m))"
    by (rule inj_onI) (simp add: word_uint_eq_iff)
  ultimately have "distinct (map uint (map fst m))"
    by (simp only: distinct_map)
  then show ?thesis by (simp add: comp_def)
qed

lemma pressedList_strictly_ascending:
  "distinct (map fst m) \<Longrightarrow> sorted_wrt (\<lambda>a b. uint (fst a) < uint (fst b)) (pressedList m)"
  using sort_key_strict [OF uint_fst_distinct, of m]
  by (simp add: pressedList_sort_key sorted_wrt_map)

lemma pressedList_same_entries:
  "set (pressedList m) = set m \<and> length (pressedList m) = length m"
  by (simp add: pressedList_sort_key)

text \<open>
  C5: for every map (its keys are unique), and so for the map that any sequence of
  messages builds, in whatever order the notes were pressed, the rendered list holds the
  same entries and is strictly ascending in the note number; pressing 64, then 60, then
  67 stores them in that order and renders them as 60, 64, 67.
\<close>

theorem rendered_list_ascending:
  "(distinct (map fst m) \<longrightarrow> sorted_wrt (\<lambda>a b. uint (fst a) < uint (fst b)) (pressedList m))
   \<and> sorted_wrt (\<lambda>a b. uint (fst a) < uint (fst b)) (pressedList (handle_all msgs []))
   \<and> set (pressedList (handle_all msgs [])) = set (handle_all msgs [])
   \<and> length (pressedList (handle_all msgs [])) = length (handle_all msgs [])
   \<and> handle_all [Some [0x90, 64, 100], Some [0x90, 60, 90], Some [0x90, 67, 80]] []
       = [(64, 100), (60, 90), (67, 80)]
   \<and> pressedList [(64, 100), (60, 90), (67, 80)] = [(60, 90), (64, 100), (67, 80)]"
proof -
  have "distinct (map fst (handle_all msgs []))"
    by (rule distinct_handle_all) simp
  then have "sorted_wrt (\<lambda>a b. uint (fst a) < uint (fst b)) (pressedList (handle_all msgs []))"
    by (rule pressedList_strictly_ascending)
  moreover have "handle_all [Some [0x90, 64, 100], Some [0x90, 60, 90], Some [0x90, 67, 80]] []
       = [(64, 100), (60, 90), (67, 80)]"
    by (simp add: handle_all_def handleMIDIMessage_def)
  moreover have "pressedList [(64, 100), (60, 90), (67, 80)] = [(60, 90), (64, 100), (67, 80)]"
    by (simp add: pressedList_def array_sort_def)
  ultimately show ?thesis
    using pressedList_same_entries [of "handle_all msgs []"]
    by (simp add: pressedList_strictly_ascending)
qed

theorem rendered_list_ascending_witness:
  "distinct (map fst [(64, 100), (60, 90), (67, 80 :: byte)] :: byte list)
   \<and> map fst (pressedList [(64, 100), (60, 90), (67, 80)]) = [60, 64, 67]
   \<and> sorted_wrt (\<lambda>a b. uint (fst a) < uint (fst b)) (pressedList [(64, 100), (60, 90), (67, 80)])"
  using rendered_list_ascending [of "[(64, 100), (60, 90), (67, 80)]" "[]"]
  by (simp add: pressedList_def array_sort_def)

subsection \<open>A rejected access request\<close>

text \<open>
  Until access has been granted no port carries the handler, so no message reaches it.
\<close>

lemma step_pressed_empty:
  assumes "e \<noteq> Granted" and "pressedNotes (view w) = []"
    and "\<forall>r. handlers w r \<noteq> Some HandleMIDIMessage" and "\<not> subscribed w"
  shows "pressedNotes (view (step nav w e)) = []
         \<and> (\<forall>r. handlers (step nav w e) r \<noteq> Some HandleMIDIMessage) \<and> \<not> subscribed (step nav w e)"
  using assms
  by (cases e) (auto simp: mount_effect_def connectMIDI_def on_access_rejected_def Let_def)

lemma run_pressed_empty:
  assumes "Granted \<notin> set es" and "pressedNotes (view w) = []"
    and "\<forall>r. handlers w r \<noteq> Some HandleMIDIMessage" and "\<not> subscribed w"
  shows "pressedNotes (view (run nav es w)) = []"
  using assms unfolding run_def
proof (induction es arbitrary: w)
  case Nil
  then show ?case by simp
next
  case (Cons e es)
  from Cons.prems(1) have e: "e \<noteq> Granted" and es: "Granted \<notin> set es" by auto
  from step_pressed_empty [OF e Cons.prems(2,3,4), of nav]
  have "pressedNotes (view (step nav w e)) = []"
    and "\<forall>r. handlers (step nav w e) r \<noteq> Some HandleMIDIMessage"
    and "\<not> subscribed (step nav w e)" by simp_all
  with es have "pressedNotes (view (foldl (step nav) (step nav w e) es)) = []"
    by (rule Cons.IH)
  then show ?case by simp
qed

text \<open>
  C6: when the access request fails, the \<open>catch\<close> callback sets the status to
  \<open>Denied\<close> for an error named SecurityError and to \<open>Error\<close> for every other
  error, and leaves the pressed notes alone; after mounting, connecting and the
  rejection that is the status shown; and in every run in which access was never
  granted the pressed notes are still empty after the rejection.
\<close>

theorem rejected_access_status:
  "midiStatus (on_access_rejected err_name s) = (if err_name = ''SecurityError'' then Denied else Error)
   \<and> pressedNotes (on_access_rejected err_name s) = pressedNotes s
   \<and> midiStatus (view (run (Navigator True) [Mount, Connect, Rejected err_name] (initial_world ports)))
       = (if err_name = ''SecurityError'' then Denied else Error)
   \<and> (Granted \<notin> set es \<longrightarrow>
        pressedNotes (view (run nav (es @ [Rejected err_name]) (initial_world ports))) = [])"
proof -
  have "Granted \<notin> set es \<longrightarrow>
        pressedNotes (view (run nav (es @ [Rejected err_name]) (initial_world ports))) = []"
  proof
    assume "Granted \<notin> set es"
    then have "Granted \<notin> set (es @ [Rejected err_name])" by simp
    then show "pressedNotes (view (run nav (es @ [Rejected err_name]) (initial_world ports))) = []"
      by (rule run_pressed_empty) (simp_all add: initial_world_def initial_state_def)
  qed
  then show ?thesis
    by (simp add: on_access_rejected_def run_def initial_world_def initial_state_def
        mount_effect_def connectMIDI_def)
qed

theorem rejected_access_status_witness:
  "view (run (Navigator True) [Mount, Connect, Rejected ''SecurityError''] (initial_world []))
     = \<lparr>midiStatus = Denied, pressedNotes = [], inputNames = []\<rparr>
   \<and> view (run (Navigator True) [Mount, Connect, Rejected ''NotFoundError''] (initial_world []))
     = \<lparr>midiStatus = Error, pressedNotes = [], inputNames = []\<rparr>"
  using rejected_access_status [where err_name = "''SecurityError''" and s = initial_state
      and ports = "[]" and es = "[Mount, Connect]" and nav = "Navigator True"]
    rejected_access_status [where err_name = "''NotFoundError''" and s = initial_state
      and ports = "[]" and es = "[Mount, Connect]" and nav = "Navigator True"]
  by (simp add: on_access_rejected_def run_def initial_world_def initial_state_def
        mount_effect_def connectMIDI_def)

subsection \<open>A platform without the MIDI API\<close>

lemma step_unsupported:
  assumes "midiStatus (view w) = Unsupported" and "pending w = 0"
  shows "midiStatus (view (step (Navigator False) w e)) = Unsupported
         \<and> pending (step (Navigator False) w e) = 0"
  using assms
  by (cases e) (auto simp: mount_effect_def connectMIDI_def on_statechange_def Let_def)

lemma run_unsupported:
  assumes "midiStatus (view w) = Unsupported" and "pending w = 0"
  shows "midiStatus (view (run (Navigator False) es w)) = Unsupported"
  using assms unfolding run_def
proof (induction es arbitrary: w)
  case Nil
  then show ?case by simp
next
  case (Cons e es)
  from step_unsupported [OF Cons.prems, of e]
  show ?case by (simp add: Cons.IH)
qed

text \<open>
  C7, as stated, fails: the API is also absent when \<open>navigator\<close> itself is undefined,
  and there the \<open>typeof\<close> guard of line 41 skips the effect, so after mounting (and
  after connecting) the status is still \<open>Idle\<close> and the connect button is rendered.
\<close>

theorem undefined_navigator_counterexample:
  "\<not> has_requestMIDIAccess NavigatorUndefined
   \<and> midiStatus (view (step NavigatorUndefined (initial_world []) Mount)) = Idle
   \<and> midiStatus (view (step NavigatorUndefined (initial_world []) Mount)) \<noteq> Unsupported
   \<and> midiStatus (view (run NavigatorUndefined [Mount, Connect] (initial_world []))) = Idle
   \<and> connect_button_rendered (view (run NavigatorUndefined [Mount, Connect] (initial_world [])))"
  by (simp add: run_def initial_world_def initial_state_def mount_effect_def connectMIDI_def
      connect_button_rendered_def)

text \<open>
  C7, amended: when \<open>navigator\<close> is defined and has no \<open>requestMIDIAccess\<close>,
  mounting sets the status to \<open>Unsupported\<close>, and after any further events
  (connecting, promise callbacks, device changes, messages, mounting again) it is still
  \<open>Unsupported\<close>, with no connect button; the connect button is rendered exactly when
  the status is \<open>Idle\<close>.
\<close>

theorem unsupported_is_final:
  "midiStatus (view (step (Navigator False) (initial_world ports) Mount)) = Unsupported
   \<and> midiStatus (view (run (Navigator False) es (step (Navigator False) (initial_world ports) Mount)))
       = Unsupported
   \<and> \<not> connect_button_rendered
         (view (run (Navigator False) es (step (Navigator False) (initial_world ports) Mount)))
   \<and> (connect_button_rendered s \<longleftrightarrow> midiStatus s = Idle)"
proof -
  let ?w = "step (Navigator False) (initial_world ports) Mount"
  have a: "midiStatus (view ?w) = Unsupported" and b: "pending ?w = 0"
    by (simp_all add: mount_effect_def initial_world_def)
  from run_unsupported [OF a b, of es] a show ?thesis
    by (simp add: connect_button_rendered_def)
qed

theorem unsupported_is_final_witness:
  "midiStatus (view (run (Navigator False)
      [Connect, Granted, Rejected ''SecurityError'', StateChange [],
       Message 0 (Some [0x90, 60, 100]), Mount]
      (step (Navigator False) (initial_world []) Mount))) = Unsupported
   \<and> \<not> connect_button_rendered (view (step (Navigator False) (initial_world []) Mount))
   \<and> connect_button_rendered initial_state"
  using unsupported_is_final [where ports = "[]" and s = initial_state and es =
      "[Connect, Granted, Rejected ''SecurityError'', StateChange [],
        Message 0 (Some [0x90, 60, 100]), Mount]"]
    unsupported_is_final [where ports = "[]" and s = initial_state and es = "[]"]
  by (simp add: run_def initial_state_def)

subsection \<open>Device-list changes\<close>

text \<open>What one pass of the \<open>onstatechange\<close> loop leaves in its accumulator.\<close>

lemma forEach_Cons: "forEach f (x # xs) acc = forEach f xs (f x acc)"
  by (simp add: forEach_def)

lemma forEach_Nil: "forEach f [] acc = acc"
  by (simp add: forEach_def)

lemma statechange_names:
  "names (forEach statechange_visit ports acc) = names acc @ map input_label ports"
  by (induction ports arbitrary: acc)
    (simp_all add: forEach_Nil forEach_Cons statechange_visit_def Let_def)

lemma statechange_store:
  "store (forEach statechange_visit ports acc) r =
     (if r \<in> port_ref ` set ports then Some HandleMIDIMessage else store acc r)"
  by (induction ports arbitrary: acc)
    (auto simp: forEach_Nil forEach_Cons statechange_visit_def Let_def)

lemma statechange_assigned:
  assumes "\<forall>r \<in> set (assigned acc). store acc r = Some HandleMIDIMessage"
    and "distinct (assigned acc)"
  shows "set (assigned (forEach statechange_visit ports acc)) =
           set (assigned acc) \<union> {r \<in> port_ref ` set ports. store acc r \<noteq> Some HandleMIDIMessage}
         \<and> distinct (assigned (forEach statechange_visit ports acc))"
  using assms
proof (induction ports arbitrary: acc)
  case Nil
  then show ?case by (simp add: forEach_Nil)
next
  case (Cons p ports)
  let ?acc = "statechange_visit p acc"
  have inv: "\<forall>r \<in> set (assigned ?acc). store ?acc r = Some HandleMIDIMessage"
    using Cons.prems(1) by (auto simp: statechange_visit_def Let_def)
  have dist: "distinct (assigned ?acc)"
    using Cons.prems by (auto simp: statechange_visit_def Let_def)
  from Cons.IH [OF inv dist]
  have IH: "set (assigned (forEach statechange_visit ports ?acc)) =
           set (assigned ?acc) \<union> {r \<in> port_ref ` set ports. store ?acc r \<noteq> Some HandleMIDIMessage}"
    and D: "distinct (assigned (forEach statechange_visit ports ?acc))" by simp_all
  have "set (assigned ?acc) \<union> {r \<in> port_ref ` set ports. store ?acc r \<noteq> Some HandleMIDIMessage}
        = set (assigned acc) \<union> {r \<in> port_ref ` set (p # ports). store acc r \<noteq> Some HandleMIDIMessage}"
    by (auto simp: statechange_visit_def Let_def)
  with IH D show ?case by (simp add: forEach_Cons)
qed

text \<open>The loop run when access is granted (lines 54-57) assigns every input.\<close>

lemma grant_assigned:
  "assigned (forEach grant_visit ports acc) = assigned acc @ map port_ref ports"
  by (induction ports arbitrary: acc) (simp_all add: forEach_Nil forEach_Cons grant_visit_def)

text \<open>
  C8, as stated, fails: the \<open>onstatechange\<close> callback assigns the handler only to a
  port that does not carry it (line 63). For a port that got the handler when access was
  granted, the callback calls the setter of no port.
\<close>

theorem statechange_reassign_counterexample:
  "snd (on_access_granted (initial_world [\<lparr>port_ref = 7, port_name = Some ''Keys'', port_id = Some ''in-1''\<rparr>])) = [7]
   \<and> inputs (fst (on_access_granted (initial_world [\<lparr>port_ref = 7, port_name = Some ''Keys'', port_id = Some ''in-1''\<rparr>])))
       = [\<lparr>port_ref = 7, port_name = Some ''Keys'', port_id = Some ''in-1''\<rparr>]
   \<and> snd (on_statechange (fst (on_access_granted
        (initial_world [\<lparr>port_ref = 7, port_name = Some ''Keys'', port_id = Some ''in-1''\<rparr>])))) = []"
  by (simp add: on_access_granted_def on_statechange_def initial_world_def forEach_def
      grant_visit_def statechange_visit_def Let_def)

text \<open>
  C8, amended: on a device-list change the callback assigns the handler to exactly the
  current inputs that do not carry it yet, each once, so that afterwards every current
  input carries it; it sets the input names to the labels of the current inputs, in
  their order; it changes the handler of no other port, nor the status, the pressed notes
  or the inputs.
\<close>

theorem statechange_attaches:
  "(\<forall>p \<in> set (inputs w). handlers (fst (on_statechange w)) (port_ref p) = Some HandleMIDIMessage)
   \<and> inputNames (view (fst (on_statechange w))) = map input_label (inputs w)
   \<and> set (snd (on_statechange w))
       = {r \<in> port_ref ` set (inputs w). handlers w r \<noteq> Some HandleMIDIMessage}
   \<and> distinct (snd (on_statechange w))
   \<and> (\<forall>r. r \<notin> port_ref ` set (inputs w) \<longrightarrow> handlers (fst (on_statechange w)) r = handlers w r)
   \<and> midiStatus (view (fst (on_statechange w))) = midiStatus (view w)
   \<and> pressedNotes (view (fst (on_statechange w))) = pressedNotes (view w)
   \<and> inputs (fst (on_statechange w)) = inputs w"
proof -
  let ?acc = "\<lparr>names = [], store = handlers w, assigned = []\<rparr>"
  have "set (assigned (forEach statechange_visit (inputs w) ?acc))
          = {r \<in> port_ref ` set (inputs w). handlers w r \<noteq> Some HandleMIDIMessage}
        \<and> distinct (assigned (forEach statechange_visit (inputs w) ?acc))"
    using statechange_assigned [of ?acc "inputs w"] by simp
  then show ?thesis
    by (simp add: on_statechange_def Let_def statechange_names statechange_store)
qed

theorem statechange_attaches_witness:
  "handlers (fst (on_statechange
      \<lparr>view = \<lparr>midiStatus = Ready, pressedNotes = [], inputNames = [''Keys'']\<rparr>,
       inputs = [\<lparr>port_ref = 7, port_name = Some ''Keys'', port_id = Some ''in-1''\<rparr>,
                 \<lparr>port_ref = 8, port_name = None, port_id = Some ''in-2''\<rparr>],
       handlers = (\<lambda>_. None)(7 := Some HandleMIDIMessage), pending = 0, subscribed = True\<rparr>)) 8
     = Some HandleMIDIMessage
   \<and> inputNames (view (fst (on_statechange
      \<lparr>view = \<lparr>midiStatus = Ready, pressedNotes = [], inputNames = [''Keys'']\<rparr>,
       inputs = [\<lparr>port_ref = 7, port_name = Some ''Keys'', port_id = Some ''in-1''\<rparr>,
                 \<lparr>port_ref = 8, port_name = None, port_id = Some ''in-2''\<rparr>],
       handlers = (\<lambda>_. None)(7 := Some HandleMIDIMessage), pending = 0, subscribed = True\<rparr>)))
     = [''Keys'', ''in-2'']
   \<and> snd (on_statechange
      \<lparr>view = \<lparr>midiStatus = Ready, pressedNotes = [], inputNames = [''Keys'']\<rparr>,
       inputs = [\<lparr>port_ref = 7, port_name = Some ''Keys'', port_id = Some ''in-1''\<rparr>,
                 \<lparr>port_ref = 8, port_name = None, port_id = Some ''in-2''\<rparr>],
       handlers = (\<lambda>_. None)(7 := Some HandleMIDIMessage), pending = 0, subscribed = True\<rparr>) = [8]"
  using statechange_attaches [of
      "\<lparr>view = \<lparr>midiStatus = Ready, pressedNotes = [], inputNames = [''Keys'']\<rparr>,
       inputs = [\<lparr>port_ref = 7, port_name = Some ''Keys'', port_id = Some ''in-1''\<rparr>,
                 \<lparr>port_ref = 8, port_name = None, port_id = Some ''in-2''\<rparr>],
       handlers = (\<lambda>_. None)(7 := Some HandleMIDIMessage), pending = 0, subscribed = True\<rparr>"]
  by (simp add: on_statechange_def forEach_def statechange_visit_def input_label_def Let_def)

end
